theory Spec2Isabelle
  imports Main
begin

section \<open>The host's primitives\<close>

text \<open>
  The collab package (collab.ts) is written against @codemirror/state. Its
  \<^verbatim>\<open>ChangeSet\<close>, \<^verbatim>\<open>ChangeDesc\<close> and \<^verbatim>\<open>StateEffect\<close> classes are not part of the
  package, so their operations are parameters of the model: \<open>'c\<close> is the type
  of change sets, \<open>'d\<close> the type of change descriptions (a change set without
  the inserted text), \<open>'e\<close> the type of state effects and \<open>'doc\<close> the type of
  documents.

  \<^item> \<open>desc c\<close>: the change set \<open>c\<close> seen as a change description
    (\<^verbatim>\<open>ChangeSet extends ChangeDesc\<close>);
  \<^item> \<open>compose a b\<close>: \<^verbatim>\<open>a.compose(b)\<close>;
  \<^item> \<open>mapSet a b before\<close>: \<^verbatim>\<open>a.map(b, before)\<close>, whose \<^verbatim>\<open>before\<close> defaults to false;
  \<^item> \<open>composeDesc a b\<close>: \<^verbatim>\<open>a.composeDesc(b)\<close>;
  \<^item> \<open>mapDesc a b before\<close>: \<^verbatim>\<open>a.mapDesc(b, before)\<close>;
  \<^item> \<open>emptySet n\<close>: \<^verbatim>\<open>ChangeSet.empty(n)\<close>;
  \<^item> \<open>changeLength c\<close>: \<^verbatim>\<open>c.length\<close>;
  \<^item> \<open>isEmpty c\<close>: \<^verbatim>\<open>c.empty\<close>;
  \<^item> \<open>mapEffect e d\<close>: \<^verbatim>\<open>e.map(d)\<close>, \<open>None\<close> when the effect is dropped;
  \<^item> \<open>applySet c doc\<close>: \<^verbatim>\<open>c.apply(doc)\<close>;
  \<^item> \<open>docLength doc\<close>: \<^verbatim>\<open>doc.length\<close>.
\<close>

record ('c, 'd, 'e, 'doc) host =
  desc :: "'c \<Rightarrow> 'd"
  compose :: "'c \<Rightarrow> 'c \<Rightarrow> 'c"
  mapSet :: "'c \<Rightarrow> 'd \<Rightarrow> bool \<Rightarrow> 'c"
  composeDesc :: "'d \<Rightarrow> 'd \<Rightarrow> 'd"
  mapDesc :: "'d \<Rightarrow> 'd \<Rightarrow> bool \<Rightarrow> 'd"
  emptySet :: "nat \<Rightarrow> 'c"
  changeLength :: "'c \<Rightarrow> nat"
  isEmpty :: "'c \<Rightarrow> bool"
  mapEffect :: "'e \<Rightarrow> 'd \<Rightarrow> 'e option"
  applySet :: "'c \<Rightarrow> 'doc \<Rightarrow> 'doc"
  docLength :: "'doc \<Rightarrow> nat"

text \<open>
  \<^verbatim>\<open>mapEffects(effects, mapping)\<close>: every effect is mapped, the ones whose
  \<^verbatim>\<open>map\<close> returns nothing are left out.
\<close>

fun mapEffects :: "('c, 'd, 'e, 'doc) host \<Rightarrow> 'e list \<Rightarrow> 'd \<Rightarrow> 'e list" where
  "mapEffects h [] mapping = []"
| "mapEffects h (e # es) mapping =
     (case mapEffect h e mapping of
        Some mapped \<Rightarrow> mapped # mapEffects h es mapping
      | None \<Rightarrow> mapEffects h es mapping)"

section \<open>The data of collab.ts\<close>

text \<open>
  \<^verbatim>\<open>interface Update\<close>: the changes, the optional effects and the client ID.
\<close>

record ('c, 'e) Update =
  changes :: 'c
  effects :: "'e list option"
  clientID :: string

text \<open>
  The entries of \<^verbatim>\<open>over\<close> in \<^verbatim>\<open>rebaseUpdates\<close>:
  \<^verbatim>\<open>{changes: ChangeDesc, clientID: string}\<close>.
\<close>

record 'd Accepted =
  acceptedChanges :: 'd
  acceptedClientID :: string

text \<open>
  A transaction as far as collab.ts reads it (its changes, its effects and its
  annotations), \<^verbatim>\<open>class LocalUpdate\<close>, which points back at the transaction that
  made it, and \<^verbatim>\<open>class CollabState\<close>, which is also the value of the
  \<^verbatim>\<open>collabReceive\<close> annotation.
\<close>

datatype ('c, 'e) Transaction =
    Transaction (tr_changes: 'c) (tr_effects: "'e list")
      (tr_annotations: "('c, 'e) Annotation list")
and ('c, 'e) Annotation =
    AddToHistory bool
  | Remote bool
  | CollabReceive "('c, 'e) CollabState"
and ('c, 'e) LocalUpdate =
    LocalUpdate (origin: "('c, 'e) Transaction") (localChanges: 'c)
      (localEffects: "'e list") (localClientID: string)
and ('c, 'e) CollabState =
    CollabState (version: int) (unconfirmed: "('c, 'e) LocalUpdate list")

text \<open>
  \<^verbatim>\<open>version\<close> is a JavaScript number, a double. It is an integer here, and the
  \<^verbatim>\<open>version += updates.length\<close> of \<^verbatim>\<open>receiveUpdates\<close> is the addition of
  integers. That is what the code computes as long as the numbers are safe
  integers (\<^verbatim>\<open>Number.isSafeInteger\<close>, at most \<open>2^53 - 1\<close> in absolute value): each
  of them is a double, and the sum of two of them is exact when it is a safe
  integer again. Above that range a double does not count by one any more
  (\<open>2^53 + 1\<close> is \<open>2^53\<close> there), so what is said about the value of the new
  version is said for safe integers.
\<close>

definition isSafeInteger :: "int \<Rightarrow> bool" where
  "isSafeInteger n = (- (2 ^ 53 - 1) \<le> n \<and> n \<le> 2 ^ 53 - 1)"

text \<open>
  \<^verbatim>\<open>type CollabConfig\<close> after \<^verbatim>\<open>combine\<close>: all three options are present.
\<close>

record ('c, 'e) CollabConfig =
  startVersion :: int
  configClientID :: string
  sharedEffects :: "('c, 'e) Transaction \<Rightarrow> 'e list"

text \<open>
  The editor state as far as collab.ts reads it: the document, the value of
  \<^verbatim>\<open>collabField\<close> and the value of the \<^verbatim>\<open>collabConfig\<close> facet.
\<close>

record ('c, 'e, 'doc) EditorState =
  doc :: 'doc
  collabField :: "('c, 'e) CollabState"
  collabConfig :: "('c, 'e) CollabConfig"

text \<open>
  The object that \<^verbatim>\<open>receiveUpdates\<close> hands to \<^verbatim>\<open>state.update\<close>. A key that the
  object literal does not have is \<open>None\<close>.
\<close>

record ('c, 'e) TransactionSpec =
  specChanges :: "'c option"
  specEffects :: "'e list option"
  specAnnotations :: "('c, 'e) Annotation list"
  specFilter :: "bool option"

section \<open>The state field\<close>

text \<open>\<^verbatim>\<open>tr.annotation(collabReceive)\<close>: the first annotation of that type.\<close>

fun annotationCollabReceive ::
  "('c, 'e) Annotation list \<Rightarrow> ('c, 'e) CollabState option" where
  "annotationCollabReceive [] = None"
| "annotationCollabReceive (CollabReceive s # rest) = Some s"
| "annotationCollabReceive (a # rest) = annotationCollabReceive rest"

definition collabFieldCreate :: "('c, 'e) CollabConfig \<Rightarrow> ('c, 'e) CollabState" where
  "collabFieldCreate cfg = CollabState (startVersion cfg) []"

text \<open>
  \<^verbatim>\<open>collabField.update(collab, tr)\<close>. The configuration is the one of
  \<^verbatim>\<open>tr.startState\<close>, passed here as \<open>cfg\<close>.
\<close>

definition collabFieldUpdate ::
  "('c, 'd, 'e, 'doc) host \<Rightarrow> ('c, 'e) CollabConfig \<Rightarrow> ('c, 'e) CollabState \<Rightarrow>
   ('c, 'e) Transaction \<Rightarrow> ('c, 'e) CollabState" where
  "collabFieldUpdate h cfg collab tr =
     (case annotationCollabReceive (tr_annotations tr) of
        Some isSync \<Rightarrow> isSync
      | None \<Rightarrow>
          (let effs = sharedEffects cfg tr in
           if effs \<noteq> [] \<or> \<not> isEmpty h (tr_changes tr)
           then CollabState (version collab)
                  (unconfirmed collab @
                   [LocalUpdate tr (tr_changes tr) effs (configClientID cfg)])
           else collab))"

definition sendableUpdates :: "('c, 'e, 'doc) EditorState \<Rightarrow> ('c, 'e) LocalUpdate list" where
  "sendableUpdates state = unconfirmed (collabField state)"

definition getSyncedVersion :: "('c, 'e, 'doc) EditorState \<Rightarrow> int" where
  "getSyncedVersion state = version (collabField state)"

definition getClientID :: "('c, 'e, 'doc) EditorState \<Rightarrow> string" where
  "getClientID state = configClientID (collabConfig state)"

section \<open>receiveUpdates\<close>

text \<open>
  One round of the loop over \<^verbatim>\<open>updates\<close>. The loop's variables are
  \<open>(own, effects, changes)\<close>; \<^verbatim>\<open>changes\<close> is \<^verbatim>\<open>null\<close> until the first update of
  another client.
\<close>

fun receiveStep ::
  "('c, 'd, 'e, 'doc) host \<Rightarrow> ('c, 'e) LocalUpdate list \<Rightarrow>
   nat \<times> 'e list \<times> 'c option \<Rightarrow> ('c, 'e) Update \<Rightarrow> nat \<times> 'e list \<times> 'c option" where
  "receiveStep h unconf (own, effs, chs) update =
     (let ours = (if own < length unconf then Some (unconf ! own) else None) in
      if (case ours of Some l \<Rightarrow> localClientID l = clientID update | None \<Rightarrow> False)
      then (own + 1,
            mapEffects h effs (desc h (changes update)),
            (case chs of
               Some c \<Rightarrow> Some (mapSet h c (desc h (localChanges (the ours))) True)
             | None \<Rightarrow> None))
      else (own,
            (let effs' = mapEffects h effs (desc h (changes update)) in
             case effects update of Some es \<Rightarrow> effs' @ es | None \<Rightarrow> effs'),
            Some (case chs of
                    Some c \<Rightarrow> compose h c (changes update)
                  | None \<Rightarrow> changes update)))"

definition receiveLoop ::
  "('c, 'd, 'e, 'doc) host \<Rightarrow> ('c, 'e) LocalUpdate list \<Rightarrow> ('c, 'e) Update list \<Rightarrow>
   nat \<times> 'e list \<times> 'c option" where
  "receiveLoop h unconf updates = foldl (receiveStep h unconf) (0, [], None) updates"

text \<open>
  The callback of \<^verbatim>\<open>unconfirmed.map\<close>, which assigns to \<^verbatim>\<open>changes\<close> as it goes:
  the result is the new queue and the last value of \<^verbatim>\<open>changes\<close>.
\<close>

fun rebaseLocal ::
  "('c, 'd, 'e, 'doc) host \<Rightarrow> string \<Rightarrow> 'c \<Rightarrow> ('c, 'e) LocalUpdate list \<Rightarrow>
   ('c, 'e) LocalUpdate list \<times> 'c" where
  "rebaseLocal h cid chs [] = ([], chs)"
| "rebaseLocal h cid chs (update # rest) =
     (let updateChanges = mapSet h (localChanges update) (desc h chs) False;
          chs' = mapSet h chs (desc h (localChanges update)) True;
          new = LocalUpdate (origin update) updateChanges
                  (mapEffects h (localEffects update) (desc h chs')) cid;
          (rest', final) = rebaseLocal h cid chs' rest
      in (new # rest', final))"

definition receiveUpdates ::
  "('c, 'd, 'e, 'doc) host \<Rightarrow> ('c, 'e, 'doc) EditorState \<Rightarrow> ('c, 'e) Update list \<Rightarrow>
   ('c, 'e) TransactionSpec" where
  "receiveUpdates h state updates =
     (let unconfirmed0 = unconfirmed (collabField state);
          cid = configClientID (collabConfig state);
          version' = version (collabField state) + int (length updates);
          (own, effs, chs) = receiveLoop h unconfirmed0 updates;
          unconfirmed1 = (if own \<noteq> 0 then drop own unconfirmed0 else unconfirmed0);
          (unconfirmed2, chs') =
            (if unconfirmed1 \<noteq> [] then
               (case chs of
                  Some c \<Rightarrow> (let (us, c') = rebaseLocal h cid c unconfirmed1 in (us, Some c'))
                | None \<Rightarrow> (unconfirmed1, None))
             else (unconfirmed1, chs));
          effs' =
            (if unconfirmed1 \<noteq> [] \<and> effs \<noteq> [] then
               mapEffects h effs
                 (desc h (foldl (\<lambda>ch u. compose h ch (localChanges u))
                            (emptySet h (changeLength h (localChanges (hd unconfirmed2))))
                            unconfirmed2))
             else effs)
      in case chs' of
           None \<Rightarrow>
             \<lparr>specChanges = None, specEffects = None,
              specAnnotations = [CollabReceive (CollabState version' unconfirmed2)],
              specFilter = None\<rparr>
         | Some c \<Rightarrow>
             \<lparr>specChanges = Some c, specEffects = Some effs',
              specAnnotations = [AddToHistory False, Remote True,
                                 CollabReceive (CollabState version' unconfirmed2)],
              specFilter = Some False\<rparr>)"

section \<open>rebaseUpdates\<close>

text \<open>
  One round of the loop over \<^verbatim>\<open>over\<close>; the loop's variables are
  \<open>(changes, skip)\<close>.
\<close>

fun rebaseStep ::
  "('c, 'd, 'e, 'doc) host \<Rightarrow> ('c, 'e) Update list \<Rightarrow>
   'd option \<times> nat \<Rightarrow> 'd Accepted \<Rightarrow> 'd option \<times> nat" where
  "rebaseStep h updates (chs, skip) update =
     (let other = (if skip < length updates then Some (updates ! skip) else None) in
      if (case other of Some u \<Rightarrow> clientID u = acceptedClientID update | None \<Rightarrow> False)
      then ((case chs of
               Some d \<Rightarrow> Some (mapDesc h d (desc h (changes (the other))) True)
             | None \<Rightarrow> None),
            skip + 1)
      else (Some (case chs of
                    Some d \<Rightarrow> composeDesc h d (acceptedChanges update)
                  | None \<Rightarrow> acceptedChanges update),
            skip))"

definition rebaseLoop ::
  "('c, 'd, 'e, 'doc) host \<Rightarrow> ('c, 'e) Update list \<Rightarrow> 'd Accepted list \<Rightarrow>
   'd option \<times> nat" where
  "rebaseLoop h updates over = foldl (rebaseStep h updates) (None, 0) over"

text \<open>The callback of the final \<^verbatim>\<open>updates.map\<close>, with its assignment to \<^verbatim>\<open>changes\<close>.\<close>

fun rebaseRemaining ::
  "('c, 'd, 'e, 'doc) host \<Rightarrow> 'd \<Rightarrow> ('c, 'e) Update list \<Rightarrow> ('c, 'e) Update list \<times> 'd" where
  "rebaseRemaining h chs [] = ([], chs)"
| "rebaseRemaining h chs (update # rest) =
     (let updateChanges = mapSet h (changes update) chs False;
          chs' = mapDesc h chs (desc h (changes update)) True;
          new = \<lparr>changes = updateChanges,
                 effects = (case effects update of
                              Some es \<Rightarrow> Some (mapEffects h es chs')
                            | None \<Rightarrow> None),
                 clientID = clientID update\<rparr>;
          (rest', final) = rebaseRemaining h chs' rest
      in (new # rest', final))"

definition rebaseUpdates ::
  "('c, 'd, 'e, 'doc) host \<Rightarrow> ('c, 'e) Update list \<Rightarrow> 'd Accepted list \<Rightarrow>
   ('c, 'e) Update list" where
  "rebaseUpdates h updates over =
     (if over = [] \<or> updates = [] then updates
      else
        (let (chs, skip) = rebaseLoop h updates over;
             updates' = (if skip \<noteq> 0 then drop skip updates else updates)
         in case chs of
              None \<Rightarrow> updates'
            | Some d \<Rightarrow> fst (rebaseRemaining h d updates')))"

section \<open>Applying a transaction\<close>

text \<open>
  The peers of the package's tests go from \<^verbatim>\<open>receiveUpdates(state, updates)\<close> to
  \<^verbatim>\<open>.state\<close>. Both steps are the host's: \<^verbatim>\<open>state.update(spec)\<close> builds the
  transaction (the spec's changes, or the empty change set of the document's
  length when the spec has none; its effects; its annotations), and \<^verbatim>\<open>tr.state\<close>
  applies the changes to the document and gives every state field its
  \<^verbatim>\<open>update\<close>. Only what collab.ts reads of them is modelled.
\<close>

definition stateUpdate ::
  "('c, 'd, 'e, 'doc) host \<Rightarrow> ('c, 'e, 'doc) EditorState \<Rightarrow> ('c, 'e) TransactionSpec \<Rightarrow>
   ('c, 'e) Transaction" where
  "stateUpdate h state spec =
     Transaction
       (case specChanges spec of
          Some c \<Rightarrow> c
        | None \<Rightarrow> emptySet h (docLength h (doc state)))
       (case specEffects spec of Some es \<Rightarrow> es | None \<Rightarrow> [])
       (specAnnotations spec)"

definition transactionState ::
  "('c, 'd, 'e, 'doc) host \<Rightarrow> ('c, 'e, 'doc) EditorState \<Rightarrow> ('c, 'e) Transaction \<Rightarrow>
   ('c, 'e, 'doc) EditorState" where
  "transactionState h state tr =
     state\<lparr>doc := applySet h (tr_changes tr) (doc state),
           collabField := collabFieldUpdate h (collabConfig state) (collabField state) tr\<rparr>"

text \<open>\<^verbatim>\<open>receiveUpdates(state, updates).state\<close>, as the peers of the tests call it.\<close>

definition receivedState ::
  "('c, 'd, 'e, 'doc) host \<Rightarrow> ('c, 'e, 'doc) EditorState \<Rightarrow> ('c, 'e) Update list \<Rightarrow>
   ('c, 'e, 'doc) EditorState" where
  "receivedState h state updates =
     transactionState h state (stateUpdate h state (receiveUpdates h state updates))"

section \<open>The running script of a rebase\<close>

text \<open>
  The script that the \<open>i\<close>-th remaining update is rebased over: the script
  \<open>F\<close> the rebase starts from, mapped with \<^verbatim>\<open>before = true\<close> over the changes
  of each of the \<open>i\<close> updates in front of it, in order.
\<close>

definition localRunning ::
  "('c, 'd, 'e, 'doc) host \<Rightarrow> 'c \<Rightarrow> ('c, 'e) LocalUpdate list \<Rightarrow> nat \<Rightarrow> 'c" where
  "localRunning h F vs i =
     foldl (\<lambda>c v. mapSet h c (desc h (localChanges v)) True) F (take i vs)"

definition remainingRunning ::
  "('c, 'd, 'e, 'doc) host \<Rightarrow> 'd \<Rightarrow> ('c, 'e) Update list \<Rightarrow> nat \<Rightarrow> 'd" where
  "remainingRunning h C us i =
     foldl (\<lambda>d u. mapDesc h d (desc h (changes u)) True) C (take i us)"

section \<open>A host of insertions\<close>

text \<open>
  A small host on which the functions above can be run: a document is a string,
  a change set is the length of the document it starts from and a list of
  insertions \<open>(position, text)\<close> made one after the other, a change description
  has the inserted lengths in place of the texts, and an effect is a position in
  the document. Mapping moves an insertion to the right by what the other script
  inserted before it; at equal positions the flag \<^verbatim>\<open>before\<close> keeps it to the left.
\<close>

type_synonym insSet = "nat \<times> (nat \<times> string) list"
type_synonym insDesc = "nat \<times> (nat \<times> nat) list"

text \<open>
  An insertion \<open>(p, x)\<close> over an insertion \<open>(q, y)\<close>; \<open>sizeB y\<close> is the length of
  what \<open>y\<close> inserts (\<open>y\<close> is a text in a change set and a length in a change
  description).
\<close>

fun insOver1 :: "('b \<Rightarrow> nat) \<Rightarrow> nat \<times> 'a \<Rightarrow> nat \<times> 'b \<Rightarrow> bool \<Rightarrow> nat \<times> 'a" where
  "insOver1 sizeB (p, x) (q, y) isBefore =
     (if p < q \<or> (p = q \<and> isBefore) then (p, x) else (p + sizeB y, x))"

text \<open>
  One insertion over a list of insertions; the list is returned as it reads
  after the insertion.
\<close>

fun insOver ::
  "('a \<Rightarrow> nat) \<Rightarrow> ('b \<Rightarrow> nat) \<Rightarrow> nat \<times> 'a \<Rightarrow> (nat \<times> 'b) list \<Rightarrow> bool \<Rightarrow>
   (nat \<times> 'a) \<times> (nat \<times> 'b) list" where
  "insOver sizeA sizeB a [] isBefore = (a, [])"
| "insOver sizeA sizeB a (b # bs) isBefore =
     (let (a', bs') = insOver sizeA sizeB (insOver1 sizeB a b isBefore) bs isBefore
      in (a', insOver1 sizeA b a (\<not> isBefore) # bs'))"

fun insMapList ::
  "('a \<Rightarrow> nat) \<Rightarrow> ('b \<Rightarrow> nat) \<Rightarrow> (nat \<times> 'a) list \<Rightarrow> (nat \<times> 'b) list \<Rightarrow> bool \<Rightarrow>
   (nat \<times> 'a) list" where
  "insMapList sizeA sizeB [] bs isBefore = []"
| "insMapList sizeA sizeB (a # as) bs isBefore =
     (let (a', bs') = insOver sizeA sizeB a bs isBefore
      in a' # insMapList sizeA sizeB as bs' isBefore)"

definition insDescOf :: "insSet \<Rightarrow> insDesc" where
  "insDescOf c = (fst c, map (\<lambda>(p, s). (p, length s)) (snd c))"

definition insNewLength :: "insDesc \<Rightarrow> nat" where
  "insNewLength d = fst d + sum_list (map snd (snd d))"

definition insMapDesc :: "insDesc \<Rightarrow> insDesc \<Rightarrow> bool \<Rightarrow> insDesc" where
  "insMapDesc a b isBefore =
     (insNewLength b, insMapList (\<lambda>n. n) (\<lambda>n. n) (snd a) (snd b) isBefore)"

definition insMapSet :: "insSet \<Rightarrow> insDesc \<Rightarrow> bool \<Rightarrow> insSet" where
  "insMapSet a b isBefore =
     (insNewLength b, insMapList length (\<lambda>n. n) (snd a) (snd b) isBefore)"

definition insCompose :: "nat \<times> 'a list \<Rightarrow> nat \<times> 'a list \<Rightarrow> nat \<times> 'a list" where
  "insCompose a b = (fst a, snd a @ snd b)"

definition insMapEffect :: "nat \<Rightarrow> insDesc \<Rightarrow> nat option" where
  "insMapEffect e d = Some (foldl (\<lambda>pos (q, m). if q < pos then pos + m else pos) e (snd d))"

definition insApply :: "insSet \<Rightarrow> string \<Rightarrow> string" where
  "insApply c text = foldl (\<lambda>t (p, s). take p t @ s @ drop p t) text (snd c)"

definition insHost :: "(insSet, insDesc, nat, string) host" where
  "insHost =
     \<lparr>desc = insDescOf, compose = insCompose, mapSet = insMapSet,
      composeDesc = insCompose, mapDesc = insMapDesc,
      emptySet = (\<lambda>n. (n, [])), changeLength = fst,
      isEmpty = (\<lambda>c. list_all (\<lambda>(p, s). s = []) (snd c)),
      mapEffect = insMapEffect, applySet = insApply, docLength = length\<rparr>"



section \<open>Sample data\<close>

text \<open>
  Two peers start from the document \<open>abc\<close>. Peer \<open>a\<close> has typed \<open>y\<close> at position 0
  and shares an effect at position 2 of its document \<open>yabc\<close>; the update is still
  unconfirmed. Peer \<open>b\<close> has inserted \<open>x\<close> at position 1, with an effect at
  position 1, and the authority has accepted that first. \<open>sampleEcho\<close> is the
  update of \<open>a\<close> as the authority accepts it after the one of \<open>b\<close>.
  \<open>sampleEffectOnly\<close> is an update of \<open>b\<close> with an effect and no changes, as
  \<^verbatim>\<open>collabField.update\<close> records it for a transaction that has shared effects
  only, and \<open>sampleRebased\<close> is \<open>b\<close>'s insertion as the authority accepts it
  after the update of \<open>a\<close>.
\<close>

definition sampleTransaction :: "(insSet, nat) Transaction" where
  "sampleTransaction = Transaction (3, [(0, ''y'')]) [2] []"

definition sampleLocal :: "(insSet, nat) LocalUpdate" where
  "sampleLocal = LocalUpdate sampleTransaction (3, [(0, ''y'')]) [2] ''a''"

definition sampleSubmitted :: "(insSet, nat) Update" where
  "sampleSubmitted = \<lparr>changes = (3, [(0, ''y'')]), effects = Some [2], clientID = ''a''\<rparr>"

definition sampleForeign :: "(insSet, nat) Update" where
  "sampleForeign = \<lparr>changes = (3, [(1, ''x'')]), effects = Some [1], clientID = ''b''\<rparr>"

definition sampleEcho :: "(insSet, nat) Update" where
  "sampleEcho = \<lparr>changes = (4, [(0, ''y'')]), effects = Some [2], clientID = ''a''\<rparr>"

definition sampleEffectOnly :: "(insSet, nat) Update" where
  "sampleEffectOnly = \<lparr>changes = (3, []), effects = Some [1], clientID = ''b''\<rparr>"

definition sampleRebased :: "(insSet, nat) Update" where
  "sampleRebased = \<lparr>changes = (4, [(2, ''x'')]), effects = Some [2], clientID = ''b''\<rparr>"

definition sampleConfig :: "(insSet, nat) CollabConfig" where
  "sampleConfig = \<lparr>startVersion = 0, configClientID = ''a'', sharedEffects = tr_effects\<rparr>"

definition sampleState :: "(insSet, nat, string) EditorState" where
  "sampleState =
     \<lparr>doc = ''yabc'', collabField = CollabState 0 [sampleLocal], collabConfig = sampleConfig\<rparr>"

definition sampleAccepted :: "insDesc Accepted list" where
  "sampleAccepted =
     [\<lparr>acceptedChanges = (3, [(1, 1)]), acceptedClientID = ''b''\<rparr>,
      \<lparr>acceptedChanges = (4, [(0, 1)]), acceptedClientID = ''a''\<rparr>]"

section \<open>The authority and the peers of the tests\<close>

text \<open>
  The function \<^verbatim>\<open>test\<close> of the package's rebasing tests keeps the authority's
  list of accepted updates, the authority's document and one editor state for
  each peer, and runs a list of events on them: a peer sends, a peer receives,
  or a peer's state goes through a transaction of its own. The peers are kept
  in the order in which they are made.
\<close>

datatype ('c, 'e) Event =
    Send string
  | Receive string
  | Tr string "('c, 'e) Transaction"

record ('c, 'e, 'doc) Authority =
  serverUpdates :: "('c, 'e) Update list"
  serverDoc :: 'doc
  peers :: "(string \<times> ('c, 'e, 'doc) EditorState) list"

text \<open>
  \<^verbatim>\<open>EditorState.create({doc: startDoc, extensions: [collab({clientID: id,
  startVersion: 0})]})\<close>; the option \<^verbatim>\<open>sharedEffects\<close> is the parameter \<open>shared\<close>.
\<close>

definition newPeer ::
  "'doc \<Rightarrow> (('c, 'e) Transaction \<Rightarrow> 'e list) \<Rightarrow> string \<Rightarrow> ('c, 'e, 'doc) EditorState" where
  "newPeer startDoc shared ident =
     (let cfg = \<lparr>startVersion = 0, configClientID = ident, sharedEffects = shared\<rparr>
      in \<lparr>doc = startDoc, collabField = collabFieldCreate cfg, collabConfig = cfg\<rparr>)"

text \<open>
  A local update is an update (\<^verbatim>\<open>class LocalUpdate implements Update\<close>), and an
  update can stand where only its change description and client ID are asked
  for.
\<close>

definition asUpdate :: "('c, 'e) LocalUpdate \<Rightarrow> ('c, 'e) Update" where
  "asUpdate l =
     \<lparr>changes = localChanges l, effects = Some (localEffects l), clientID = localClientID l\<rparr>"

definition asAccepted :: "('c, 'd, 'e, 'doc) host \<Rightarrow> ('c, 'e) Update \<Rightarrow> 'd Accepted" where
  "asAccepted h u = \<lparr>acceptedChanges = desc h (changes u), acceptedClientID = clientID u\<rparr>"

text \<open>\<^verbatim>\<open>xs.slice(n)\<close>: from index \<open>n\<close> on, counted from the end when \<open>n\<close> is negative.\<close>

definition slice :: "int \<Rightarrow> 'a list \<Rightarrow> 'a list" where
  "slice n xs = (if n < 0 then drop (length xs - nat (- n)) xs else drop (nat n) xs)"

definition setPeer ::
  "string \<Rightarrow> 's \<Rightarrow> (string \<times> 's) list \<Rightarrow> (string \<times> 's) list" where
  "setPeer ident state ps = map (\<lambda>(k, s). if k = ident then (k, state) else (k, s)) ps"

text \<open>
  \<^verbatim>\<open>send(id)\<close> and \<^verbatim>\<open>receive(id)\<close> of the tests. They are only called for a peer
  that exists.
\<close>

definition send ::
  "('c, 'd, 'e, 'doc) host \<Rightarrow> string \<Rightarrow> ('c, 'e, 'doc) Authority \<Rightarrow> ('c, 'e, 'doc) Authority" where
  "send h ident w =
     (case map_of (peers w) ident of
        None \<Rightarrow> w
      | Some state \<Rightarrow>
          (let version = getSyncedVersion state;
               sendable0 = map asUpdate (sendableUpdates state);
               sendable =
                 (if version \<noteq> int (length (serverUpdates w))
                  then rebaseUpdates h sendable0
                         (map (asAccepted h) (slice version (serverUpdates w)))
                  else sendable0)
           in if sendable = [] then w
              else w\<lparr>serverUpdates := serverUpdates w @ sendable,
                     serverDoc := foldl (\<lambda>d u. applySet h (changes u) d) (serverDoc w) sendable\<rparr>))"

definition receive ::
  "('c, 'd, 'e, 'doc) host \<Rightarrow> string \<Rightarrow> ('c, 'e, 'doc) Authority \<Rightarrow> ('c, 'e, 'doc) Authority" where
  "receive h ident w =
     (case map_of (peers w) ident of
        None \<Rightarrow> w
      | Some state \<Rightarrow>
          (let version = getSyncedVersion state
           in if version < int (length (serverUpdates w))
              then w\<lparr>peers := setPeer ident
                                (receivedState h state (slice version (serverUpdates w)))
                                (peers w)\<rparr>
              else w))"

text \<open>The body of the loop over the events: the peer is made when it is first named.\<close>

definition ensurePeer ::
  "'doc \<Rightarrow> (('c, 'e) Transaction \<Rightarrow> 'e list) \<Rightarrow> string \<Rightarrow> ('c, 'e, 'doc) Authority \<Rightarrow>
   ('c, 'e, 'doc) Authority" where
  "ensurePeer startDoc shared ident w =
     (if map_of (peers w) ident = None
      then w\<lparr>peers := peers w @ [(ident, newPeer startDoc shared ident)]\<rparr>
      else w)"

fun event ::
  "('c, 'd, 'e, 'doc) host \<Rightarrow> 'doc \<Rightarrow> (('c, 'e) Transaction \<Rightarrow> 'e list) \<Rightarrow>
   ('c, 'e, 'doc) Authority \<Rightarrow> ('c, 'e) Event \<Rightarrow> ('c, 'e, 'doc) Authority" where
  "event h startDoc shared w (Send ident) = send h ident (ensurePeer startDoc shared ident w)"
| "event h startDoc shared w (Receive ident) =
     receive h ident (ensurePeer startDoc shared ident w)"
| "event h startDoc shared w (Tr ident tr) =
     (let w' = ensurePeer startDoc shared ident w
      in case map_of (peers w') ident of
           None \<Rightarrow> w'
         | Some state \<Rightarrow> w'\<lparr>peers := setPeer ident (transactionState h state tr) (peers w')\<rparr>)"

definition run ::
  "('c, 'd, 'e, 'doc) host \<Rightarrow> 'doc \<Rightarrow> (('c, 'e) Transaction \<Rightarrow> 'e list) \<Rightarrow>
   ('c, 'e) Event list \<Rightarrow> ('c, 'e, 'doc) Authority" where
  "run h startDoc shared events =
     foldl (event h startDoc shared) \<lparr>serverUpdates = [], serverDoc = startDoc, peers = []\<rparr> events"

text \<open>
  The end of \<^verbatim>\<open>test\<close>: every peer sends, then every peer receives. \<open>order\<close> is
  the order in which \<^verbatim>\<open>for (let id in peers)\<close> names the peers.
\<close>

definition finish ::
  "('c, 'd, 'e, 'doc) host \<Rightarrow> string list \<Rightarrow> ('c, 'e, 'doc) Authority \<Rightarrow>
   ('c, 'e, 'doc) Authority" where
  "finish h order w =
     foldl (\<lambda>w ident. receive h ident w) (foldl (\<lambda>w ident. send h ident w) w order) order"



section \<open>What convergence asks of the host\<close>


section \<open>Runs of the tests\<close>

text \<open>
  \<^verbatim>\<open>type(id, text, at)\<close> of the tests, on the host of insertions: the peer
  inserts \<open>text\<close> at position \<open>pos\<close> of its document, which has the length \<open>n\<close>.
  \<open>outcome\<close> is what \<^verbatim>\<open>test\<close> compares at its end: the authority's document and
  the document of every peer.
\<close>

definition typed :: "string \<Rightarrow> nat \<Rightarrow> nat \<Rightarrow> string \<Rightarrow> (insSet, nat) Event" where
  "typed ident n pos text = Tr ident (Transaction (n, [(pos, text)]) [] [])"

definition outcome ::
  "string \<Rightarrow> (insSet, nat) Event list \<Rightarrow> string \<times> (string \<times> string) list" where
  "outcome startDoc events =
     (let w = run insHost startDoc (\<lambda>t. []) events;
          w' = finish insHost (map fst (peers w)) w
      in (serverDoc w', map (\<lambda>(ident, state). (ident, doc state)) (peers w')))"

text \<open>
  The test ``works for multiple rebased changes'': the document is \<open>abc\<close>, peer
  \<open>a\<close> types \<open>d\<close> at position 3 and \<open>e\<close> at position 4, peer \<open>b\<close> types \<open>0\<close>
  at position 0 and sends, then \<open>a\<close> sends. The document expected at the end is
  \<open>0abcde\<close>.
\<close>

definition sampleEvents :: "(insSet, nat) Event list" where
  "sampleEvents =
     [typed ''a'' 3 3 ''d'', typed ''a'' 4 4 ''e'', typed ''b'' 3 0 ''0'',
      Send ''b'', Send ''a'']"

section \<open>The invariant of the authority and the peers\<close>

text \<open>
  What holds of the authority's list of updates and of every peer throughout a
  run. \<open>applyAll\<close> applies change sets one after the other and \<open>fitsAll\<close> says
  that each fits the document it meets. \<open>echoesFrom\<close> says of a peer with the
  unconfirmed updates \<open>U\<close> and of the accepted updates \<open>S\<close> it has not received
  yet that every update of \<open>S\<close> with the peer's client ID stands for the
  unconfirmed update under the cursor of the loop of \<^verbatim>\<open>receiveUpdates\<close>, and has
  the changes that this update has once mapped over the foreign changes the loop
  has gathered (\<open>expectedEcho\<close>). \<open>good\<close> is the invariant of that loop: the
  foreign changes \<open>F\<close> lead from the document after the first \<open>k\<close> unconfirmed
  updates to the authority's document \<open>D\<close>. \<open>peerInv\<close> puts together what holds
  of one peer, \<open>worldInv\<close> what holds of all. \<open>allSent\<close> says that every
  unconfirmed update of a peer is among the accepted ones; \<open>outgoing\<close> is what
  \<^verbatim>\<open>send\<close> appends for a peer.
\<close>

definition applyAll :: "('c, 'd, 'e, 'doc) host \<Rightarrow> 'c list \<Rightarrow> 'doc \<Rightarrow> 'doc" where
  "applyAll h cs d = foldl (\<lambda>d c. applySet h c d) d cs"













section \<open>Facts about the loops\<close>

text \<open>
  What a round of each loop does to the cursor and to the gathered changes, and
  the closed forms of the two rebasing callbacks and of the two functions.
\<close>

lemma receiveStep_None:
  "receiveStep h unconf (own, [], None) u = (own + 1, [], None) \<or>
   (\<exists>E c. receiveStep h unconf (own, [], None) u = (own, E, Some c))"
  by (auto simp: Let_def split: if_splits option.splits)

lemma receiveStep_Some:
  "\<exists>own' E c'. receiveStep h unconf (own, effs, Some c) u = (own', E, Some c')"
  by (auto simp: Let_def split: if_splits option.splits)


lemma rebaseLocal_length: "length (fst (rebaseLocal h cid F vs)) = length vs"
  by (induction vs arbitrary: F) (simp_all add: Let_def split_beta)

lemma rebaseLocal_snd: "snd (rebaseLocal h cid F vs) = localRunning h F vs (length vs)"
  by (induction vs arbitrary: F) (simp_all add: Let_def localRunning_def split_beta)

lemma localRunning_0 [simp]: "localRunning h F vs 0 = F"
  by (simp add: localRunning_def)

lemma localRunning_Suc_Cons [simp]:
  "localRunning h F (v # vs) (Suc i) =
   localRunning h (mapSet h F (desc h (localChanges v)) True) vs i"
  by (simp add: localRunning_def)

lemma rebaseLocal_nth:
  "i < length vs \<Longrightarrow>
   fst (rebaseLocal h cid F vs) ! i =
   LocalUpdate (origin (vs ! i))
     (mapSet h (localChanges (vs ! i)) (desc h (localRunning h F vs i)) False)
     (mapEffects h (localEffects (vs ! i)) (desc h (localRunning h F vs (Suc i)))) cid"
proof (induction vs arbitrary: F i)
  case Nil then show ?case by simp
next
  case (Cons v vs)
  show ?case
  proof (cases i)
    case 0 then show ?thesis by (simp add: Let_def split_beta)
  next
    case (Suc j)
    with Cons.prems have "j < length vs" by simp
    from Cons.IH [OF this] Suc show ?thesis
      by (simp add: Let_def split_beta)
  qed
qed

lemma remainingRunning_0 [simp]: "remainingRunning h C us 0 = C"
  by (simp add: remainingRunning_def)

lemma remainingRunning_Suc_Cons [simp]:
  "remainingRunning h C (u # us) (Suc i) =
   remainingRunning h (mapDesc h C (desc h (changes u)) True) us i"
  by (simp add: remainingRunning_def)

lemma rebaseRemaining_length: "length (fst (rebaseRemaining h C us)) = length us"
  by (induction us arbitrary: C) (simp_all add: Let_def split_beta)

lemma rebaseRemaining_nth:
  "i < length us \<Longrightarrow>
   fst (rebaseRemaining h C us) ! i =
   \<lparr>changes = mapSet h (changes (us ! i)) (remainingRunning h C us i) False,
    effects = map_option (\<lambda>es. mapEffects h es (remainingRunning h C us (Suc i)))
                (effects (us ! i)),
    clientID = clientID (us ! i)\<rparr>"
proof (induction us arbitrary: C i)
  case Nil then show ?case by simp
next
  case (Cons u us)
  show ?case
  proof (cases i)
    case 0 then show ?thesis by (simp add: Let_def split_beta split: option.splits)
  next
    case (Suc j)
    with Cons.prems have "j < length us" by simp
    from Cons.IH [OF this] Suc show ?thesis
      by (simp add: Let_def split_beta)
  qed
qed

declare receiveStep.simps [simp del]
declare rebaseStep.simps [simp del]

lemma receiveUpdates_eq:
  assumes "receiveLoop h (unconfirmed (collabField state)) updates = (own, E, F)"
  shows "receiveUpdates h state updates =
    (let vs = drop own (unconfirmed (collabField state));
         version' = version (collabField state) + int (length updates);
         cid = configClientID (collabConfig state)
     in case F of
          None \<Rightarrow>
            \<lparr>specChanges = None, specEffects = None,
             specAnnotations = [CollabReceive (CollabState version' vs)],
             specFilter = None\<rparr>
        | Some f \<Rightarrow>
            \<lparr>specChanges = Some (snd (rebaseLocal h cid f vs)),
             specEffects = Some
               (if vs \<noteq> [] \<and> E \<noteq> [] then
                  mapEffects h E
                    (desc h (foldl (\<lambda>ch u. compose h ch (localChanges u))
                       (emptySet h (changeLength h (localChanges (hd (fst (rebaseLocal h cid f vs))))))
                       (fst (rebaseLocal h cid f vs))))
                else E),
             specAnnotations = [AddToHistory False, Remote True,
                                CollabReceive (CollabState version' (fst (rebaseLocal h cid f vs)))],
             specFilter = Some False\<rparr>)"
  using assms
  by (cases "own = 0"; cases F; cases "drop own (unconfirmed (collabField state)) = []")
     (simp_all add: receiveUpdates_def Let_def split: prod.splits)

lemma foldl_receiveStep_Some:
  "\<exists>own' E c'. foldl (receiveStep h unconf) (own, effs, Some c) us = (own', E, Some c')"
proof (induction us arbitrary: own effs c)
  case Nil show ?case by simp
next
  case (Cons u us)
  obtain own' E c' where "receiveStep h unconf (own, effs, Some c) u = (own', E, Some c')"
    using receiveStep_Some [of h unconf own effs c u] by blast
  then show ?case using Cons.IH [of own' E c'] by simp
qed

lemma foldl_receiveStep_None:
  "foldl (receiveStep h unconf) (own, [], None) us = (own', E, None) \<Longrightarrow>
   E = [] \<and> own' = own + length us"
proof (induction us arbitrary: own)
  case Nil then show ?case by simp
next
  case (Cons u us)
  from receiveStep_None [of h unconf own u] show ?case
  proof
    assume "receiveStep h unconf (own, [], None) u = (own + 1, [], None)"
    then show ?thesis using Cons.IH [of "own + 1"] Cons.prems by simp
  next
    assume "\<exists>E c. receiveStep h unconf (own, [], None) u = (own, E, Some c)"
    then obtain E' c where s: "receiveStep h unconf (own, [], None) u = (own, E', Some c)" by blast
    obtain own2 E2 c2 where "foldl (receiveStep h unconf) (own, E', Some c) us = (own2, E2, Some c2)"
      using foldl_receiveStep_Some [of h unconf own E' c us] by blast
    with s Cons.prems show ?thesis by simp
  qed
qed

lemma receiveLoop_no_foreign_no_effects:
  assumes "receiveLoop h unconf updates = (own, E, None)"
  shows "E = [] \<and> own = length updates"
  using foldl_receiveStep_None [of h unconf 0 updates own E] assms
  by (simp add: receiveLoop_def)

lemma receiveStep_own_bound:
  "fst (receiveStep h unconf st u) \<le> fst st + 1"
  by (cases st) (auto simp: receiveStep.simps Let_def split: if_splits option.splits)

lemma foldl_receiveStep_own_bound:
  "fst (foldl (receiveStep h unconf) st us) \<le> fst st + length us"
proof (induction us arbitrary: st)
  case Nil show ?case by simp
next
  case (Cons u us)
  from Cons.IH [of "receiveStep h unconf st u"] receiveStep_own_bound [of h unconf st u]
  show ?case by simp
qed

lemma foldl_receiveStep_foreign:
  "foldl (receiveStep h unconf) (own, [], None) us = (own', E, Some c) \<Longrightarrow> own' < own + length us"
proof (induction us arbitrary: own)
  case Nil then show ?case by simp
next
  case (Cons u us)
  from receiveStep_None [of h unconf own u] show ?case
  proof
    assume "receiveStep h unconf (own, [], None) u = (own + 1, [], None)"
    then show ?thesis using Cons.IH [of "own + 1"] Cons.prems by simp
  next
    assume "\<exists>E c. receiveStep h unconf (own, [], None) u = (own, E, Some c)"
    then obtain E' c' where s: "receiveStep h unconf (own, [], None) u = (own, E', Some c')"
      by blast
    from foldl_receiveStep_own_bound [of h unconf "(own, E', Some c')" us] s Cons.prems
    show ?thesis by simp
  qed
qed

lemma receiveLoop_all_echoes:
  assumes "receiveLoop h unconf updates = (own, E, F)"
  shows "(F = None) = (own = length updates)"
proof (cases F)
  case None
  with receiveLoop_no_foreign_no_effects [of h unconf updates own E] assms show ?thesis by simp
next
  case (Some c)
  with foldl_receiveStep_foreign [of h unconf 0 updates own E c] assms show ?thesis
    by (simp add: receiveLoop_def)
qed

lemma receiveLoop_Nil [simp]: "receiveLoop h unconf [] = (0, [], None)"
  by (simp add: receiveLoop_def)

lemma rebaseLoop_Nil [simp]: "rebaseLoop h updates [] = (None, 0)"
  by (simp add: rebaseLoop_def)

lemma collabState_collapse: "CollabState (version s) (unconfirmed s) = s"
  by (cases s) simp

lemma received_collabField:
  "collabField (receivedState h state updates) =
   the (annotationCollabReceive (specAnnotations (receiveUpdates h state updates)))"
proof -
  obtain own E F where l: "receiveLoop h (unconfirmed (collabField state)) updates = (own, E, F)"
    by (cases "receiveLoop h (unconfirmed (collabField state)) updates") auto
  show ?thesis
    using receiveUpdates_eq [OF l]
    by (cases F)
       (simp_all add: receivedState_def transactionState_def stateUpdate_def
          collabFieldUpdate_def Let_def)
qed

lemma received_unconfirmed:
  assumes "receiveLoop h (unconfirmed (collabField state)) updates = (own, E, F)"
  shows "collabField (receivedState h state updates) =
         CollabState (version (collabField state) + int (length updates))
           (case F of
              None \<Rightarrow> drop own (unconfirmed (collabField state))
            | Some f \<Rightarrow> fst (rebaseLocal h (configClientID (collabConfig state)) f
                              (drop own (unconfirmed (collabField state)))))"
  using receiveUpdates_eq [OF assms]
  by (cases F) (simp_all add: received_collabField Let_def)

lemma rebaseLocal_fst_eq:
  "fst (rebaseLocal h cid F vs) =
   map (\<lambda>i. LocalUpdate (origin (vs ! i))
              (mapSet h (localChanges (vs ! i)) (desc h (localRunning h F vs i)) False)
              (mapEffects h (localEffects (vs ! i)) (desc h (localRunning h F vs (Suc i)))) cid)
       [0..<length vs]"
  by (rule nth_equalityI) (simp_all add: rebaseLocal_length rebaseLocal_nth)

lemma rebaseRemaining_fst_eq:
  "fst (rebaseRemaining h C us) =
   map (\<lambda>i. \<lparr>changes = mapSet h (changes (us ! i)) (remainingRunning h C us i) False,
              effects = map_option (\<lambda>es. mapEffects h es (remainingRunning h C us (Suc i)))
                          (effects (us ! i)),
              clientID = clientID (us ! i)\<rparr>)
       [0..<length us]"
  by (rule nth_equalityI) (simp_all add: rebaseRemaining_length rebaseRemaining_nth)

lemma rebaseUpdates_eq:
  assumes "rebaseLoop h updates over = (C, skip)"
  shows "rebaseUpdates h updates over =
         (case C of
            None \<Rightarrow> drop skip updates
          | Some d \<Rightarrow> fst (rebaseRemaining h d (drop skip updates)))"
proof (cases "over = [] \<or> updates = []")
  case True
  then show ?thesis
  proof
    assume "over = []"
    with assms show ?thesis by (simp add: rebaseUpdates_def)
  next
    assume u: "updates = []"
    then show ?thesis by (cases C) (simp_all add: rebaseUpdates_def)
  qed
next
  case False
  with assms show ?thesis
    by (cases "skip = 0"; cases C) (simp_all add: rebaseUpdates_def)
qed

section \<open>Facts about the invariant\<close>

text \<open>
  The invariant holds at the start and is kept by every event: by a
  transaction of a peer's own, by \<^verbatim>\<open>receive\<close> (the loop of \<^verbatim>\<open>receiveUpdates\<close>
  keeps \<open>good\<close>, and rebasing the remaining updates commutes with the foreign
  changes), and by \<^verbatim>\<open>send\<close> (the loop of \<^verbatim>\<open>rebaseUpdates\<close> runs in step with
  the one of \<^verbatim>\<open>receiveUpdates\<close>, so what the authority appends is what the
  sender will take for its own echoes).
\<close>

lemma applyAll_Nil [simp]: "applyAll h [] d = d"
  by (simp add: applyAll_def)

lemma applyAll_Cons [simp]: "applyAll h (c # cs) d = applyAll h cs (applySet h c d)"
  by (simp add: applyAll_def)




















lemma received_config [simp]:
  "collabConfig (receivedState h state updates) = collabConfig state"
  by (simp add: receivedState_def transactionState_def)




















lemma map_fst_setPeer [simp]: "map fst (setPeer k v ps) = map fst ps"
  by (induction ps) (auto simp: setPeer_def)







lemma send_peers [simp]: "peers (send h ident w) = peers w"
  by (simp add: send_def Let_def split: option.splits)





lemma receive_updates [simp]: "serverUpdates (receive h ident w) = serverUpdates w"
  by (simp add: receive_def Let_def split: option.splits)

lemma receive_serverDoc [simp]: "serverDoc (receive h ident w) = serverDoc w"
  by (simp add: receive_def Let_def split: option.splits)

lemma receive_keys [simp]: "map fst (peers (receive h ident w)) = map fst (peers w)"
  by (simp add: receive_def Let_def split: option.splits)





lemma ensurePeer_updates [simp]:
  "serverUpdates (ensurePeer startDoc shared ident w) = serverUpdates w"
  "serverDoc (ensurePeer startDoc shared ident w) = serverDoc w"
  by (simp_all add: ensurePeer_def)













section \<open>The host of insertions is lawful\<close>








lemma insOver1_snd [simp]: "snd (insOver1 sz a b bf) = snd a"
  by (cases a; cases b) simp






lemma insMapList_Nil2 [simp]: "insMapList sa sb A [] bf = A"
  by (induction A) simp_all
















section \<open>The tests of the package, run\<close>

text \<open>
  The tests of the package that only insert text, run on the host of
  insertions: each ends with the document that the test expects, at the
  authority and at every peer.
\<close>

lemma test_simple_cases:
  "outcome ''bcd'' [typed ''a'' 3 0 ''a'', typed ''b'' 3 3 ''e'', Send ''a''] =
   (''abcde'', [(''a'', ''abcde''), (''b'', ''abcde'')])"
  by code_simp

lemma test_multiple_rebased_changes:
  "outcome ''abc'' sampleEvents = (''0abcde'', [(''a'', ''0abcde''), (''b'', ''0abcde'')])"
  by code_simp

lemma test_multiple_peer_changes:
  "outcome ''abc''
     [typed ''a'' 3 3 ''d'', typed ''a'' 4 4 ''e'', typed ''b'' 3 0 ''0'', typed ''b'' 4 1 ''1'',
      Send ''b'', Send ''a''] =
   (''01abcde'', [(''a'', ''01abcde''), (''b'', ''01abcde'')])"
  by code_simp

lemma test_local_unconfirmed_changes:
  "outcome ''x''
     [typed ''a'' 1 1 ''y'', typed ''b'' 1 0 ''0'', Send ''b'', Send ''a'',
      typed ''a'' 2 2 ''z'', Receive ''a''] =
   (''0xyz'', [(''a'', ''0xyz''), (''b'', ''0xyz'')])"
  by code_simp

lemma test_multiple_local_unconfirmed_changes:
  "outcome ''x''
     [typed ''a'' 1 1 ''y'', typed ''b'' 1 1 ''0'', typed ''b'' 2 2 ''1'', Send ''b'', Send ''a'',
      typed ''a'' 2 2 ''z'', typed ''a'' 3 0 ''!'', Receive ''a''] =
   (''!x01yz'', [(''a'', ''!x01yz''), (''b'', ''!x01yz'')])"
  by code_simp

lemma test_sandwiched_local_changes:
  "outcome ''-''
     [typed ''a'' 1 1 ''X'', typed ''a'' 2 2 ''Y'', typed ''b'' 1 0 ''U'', typed ''b'' 2 1 ''V'',
      Send ''b'', Send ''a'', Receive ''b'', typed ''b'' 5 2 ''W'', typed ''b'' 6 6 ''!'',
      Send ''b'', typed ''a'' 3 3 ''Z'', Receive ''a''] =
   (''UVW-XY!Z'', [(''a'', ''UVW-XY!Z''), (''b'', ''UVW-XY!Z'')])"
  by code_simp

lemma test_changes_in_flight:
  "outcome ''123''
     [typed ''a'' 3 1 ''X'', typed ''a'' 4 2 ''Y'', typed ''b'' 3 0 ''A'', typed ''b'' 4 1 ''B'',
      Send ''a'', Send ''b'', Receive ''b'', typed ''a'' 5 4 ''Z'', typed ''a'' 6 5 ''.'',
      Send ''a'', Receive ''b'', typed ''b'' 9 9 ''?'', Send ''b''] =
   (''AB1XY2Z.3?'', [(''a'', ''AB1XY2Z.3?''), (''b'', ''AB1XY2Z.3?'')])"
  by code_simp

section \<open>Running the sample\<close>

lemmas sample_defs = sampleTransaction_def sampleLocal_def sampleSubmitted_def sampleForeign_def
  sampleEcho_def sampleEffectOnly_def sampleRebased_def sampleConfig_def sampleState_def
  sampleAccepted_def
lemmas ins_defs = insHost_def insDescOf_def insNewLength_def insMapDesc_def insMapSet_def
  insCompose_def insMapEffect_def insApply_def

lemma sample_receiveLoop:
  "receiveLoop insHost (unconfirmed (collabField sampleState)) [sampleForeign] =
   (0, [1], Some (3, [(1, ''x'')]))"
  by (simp add: receiveLoop_def receiveStep.simps sample_defs ins_defs)

lemma sample_receiveLoop_echo:
  "receiveLoop insHost (unconfirmed (collabField sampleState)) [sampleEcho] = (1, [], None)"
  by (simp add: receiveLoop_def receiveStep.simps sample_defs ins_defs)

lemma sample_receiveLoop_effectOnly:
  "receiveLoop insHost (unconfirmed (collabField sampleState)) [sampleEffectOnly] =
   (0, [1], Some (3, []))"
  by (simp add: receiveLoop_def receiveStep.simps sample_defs ins_defs)

lemma sample_receiveLoop_rebased:
  "receiveLoop insHost (unconfirmed (collabField sampleState)) [sampleSubmitted, sampleRebased] =
   (1, [2], Some (4, [(2, ''x'')]))"
  by (simp add: receiveLoop_def receiveStep.simps sample_defs ins_defs)

lemma sample_rebaseLoop:
  "rebaseLoop insHost [sampleSubmitted] [sampleAccepted ! 0] = (Some (3, [(1, 1)]), 0)"
  by (simp add: rebaseLoop_def rebaseStep.simps sample_defs ins_defs)

section \<open>The steps of the two loops\<close>

text \<open>
  C2, as the code has it. When the loop of \<^verbatim>\<open>receiveUpdates\<close> has gone through
  a part of the batch and the next update \<open>u\<close> has the client ID of the
  unconfirmed update under the cursor \<open>own\<close>, the round maps the effects \<open>E\<close>
  over \<open>u\<close>'s changes, moves the cursor by one and composes nothing into the
  foreign changes \<open>F\<close>. \<open>F\<close> does not stay as it is, though: when it is not
  \<^verbatim>\<open>null\<close> it is mapped, with \<^verbatim>\<open>before = true\<close>, over the changes of that
  unconfirmed update (\<^verbatim>\<open>changes.map(ours.changes, true)\<close>).
\<close>

theorem receiveLoop_own_echo:
  assumes "receiveLoop h unconf batch = (own, E, F)"
    and "own < length unconf" and "localClientID (unconf ! own) = clientID u"
  shows "receiveLoop h unconf (batch @ [u]) =
         (own + 1, mapEffects h E (desc h (changes u)),
          map_option (\<lambda>c. mapSet h c (desc h (localChanges (unconf ! own))) True) F)"
  using assms by (cases F) (simp_all add: receiveLoop_def receiveStep.simps)

text \<open>
  The round at the sample: the batch is \<open>b\<close>'s update and then the echo of
  \<open>a\<close>'s own.
\<close>

theorem receiveLoop_own_echo_witness:
  "receiveLoop insHost [sampleLocal] [sampleForeign] = (0, [1], Some (3, [(1, ''x'')])) \<and>
   0 < length [sampleLocal] \<and> localClientID ([sampleLocal] ! 0) = clientID sampleEcho \<and>
   receiveLoop insHost [sampleLocal] ([sampleForeign] @ [sampleEcho]) =
     (1, [2], Some (4, [(2, ''x'')]))"
proof -
  have l: "receiveLoop insHost [sampleLocal] [sampleForeign] = (0, [1], Some (3, [(1, ''x'')]))"
    by (simp add: receiveLoop_def receiveStep.simps sample_defs ins_defs)
  have k: "0 < length [sampleLocal]" by simp
  have m: "localClientID ([sampleLocal] ! 0) = clientID sampleEcho" by (simp add: sample_defs)
  from receiveLoop_own_echo [OF l k m] l k m show ?thesis
    by (simp add: sample_defs ins_defs)
qed

text \<open>
  C2 as it is written says that the round leaves \<open>F\<close> unchanged. At the sample
  \<open>F\<close> is the insertion of \<open>x\<close> at position 1 of \<open>abc\<close> before the round and
  the insertion of \<open>x\<close> at position 2 of \<open>yabc\<close> after it.
\<close>

theorem own_echo_changes_script_counterexample:
  "receiveLoop insHost [sampleLocal] [sampleForeign] = (0, [1], Some (3, [(1, ''x'')])) \<and>
   0 < length [sampleLocal] \<and> localClientID ([sampleLocal] ! 0) = clientID sampleEcho \<and>
   snd (snd (receiveLoop insHost [sampleLocal] [sampleForeign, sampleEcho]))
     \<noteq> Some (3, [(1, ''x'')])"
  by (simp add: receiveLoop_def receiveStep.simps sample_defs ins_defs)

text \<open>
  C3, as the code has it. For every entry of \<^verbatim>\<open>over\<close>, in order: when the
  cursor \<open>skip\<close> is inside \<^verbatim>\<open>updates\<close> and the update under it has the entry's
  client ID, the script \<open>C\<close> (when it is not \<^verbatim>\<open>null\<close>) is mapped, with
  \<^verbatim>\<open>before = true\<close>, over the changes of that submitted update,
  \<^verbatim>\<open>updates[skip].changes\<close>, and \<open>skip\<close> moves by one; the entry's changes are
  not composed into \<open>C\<close>. Otherwise the entry's changes are composed into \<open>C\<close>,
  or become \<open>C\<close> when it was \<^verbatim>\<open>null\<close>.
\<close>

theorem rebaseLoop_cases:
  assumes "rebaseLoop h updates over = (C, skip)"
  shows "rebaseLoop h updates (over @ [accepted]) =
     (if skip < length updates \<and> clientID (updates ! skip) = acceptedClientID accepted
      then (map_option (\<lambda>d. mapDesc h d (desc h (changes (updates ! skip))) True) C, skip + 1)
      else (Some (case C of
                    None \<Rightarrow> acceptedChanges accepted
                  | Some d \<Rightarrow> composeDesc h d (acceptedChanges accepted)), skip))"
  using assms by (cases C) (simp_all add: rebaseLoop_def rebaseStep.simps)

text \<open>Both branches at the sample: \<open>b\<close>'s accepted update, then \<open>a\<close>'s.\<close>

theorem rebaseLoop_cases_witness:
  "rebaseLoop insHost [sampleSubmitted] [] = (None, 0) \<and>
   rebaseLoop insHost [sampleSubmitted] ([] @ [sampleAccepted ! 0]) = (Some (3, [(1, 1)]), 0) \<and>
   rebaseLoop insHost [sampleSubmitted] ([sampleAccepted ! 0] @ [sampleAccepted ! 1]) =
     (Some (4, [(2, 1)]), 1)"
proof -
  have a: "rebaseLoop insHost [sampleSubmitted] [] = (None, 0)" by simp
  from rebaseLoop_cases [OF a, of "sampleAccepted ! 0"]
  have b: "rebaseLoop insHost [sampleSubmitted] ([] @ [sampleAccepted ! 0]) = (Some (3, [(1, 1)]), 0)"
    by (simp add: sample_defs)
  then have b': "rebaseLoop insHost [sampleSubmitted] [sampleAccepted ! 0] = (Some (3, [(1, 1)]), 0)"
    by simp
  from rebaseLoop_cases [OF b', of "sampleAccepted ! 1"]
  have "rebaseLoop insHost [sampleSubmitted] ([sampleAccepted ! 0] @ [sampleAccepted ! 1]) =
     (Some (4, [(2, 1)]), 1)"
    by (simp add: sample_defs ins_defs)
  with a b show ?thesis by simp
qed

text \<open>
  C3 as it is written has \<open>C\<close> mapped over the accepted entry's changes. At the
  sample the entry's changes start from the document of length 4 that \<open>b\<close>'s
  insertion has made, the submitted ones from the document of length 3 that
  \<open>C\<close> starts from too, and the two results differ.
\<close>

theorem resubmission_maps_over_accepted_counterexample:
  "rebaseLoop insHost [sampleSubmitted] [sampleAccepted ! 0] = (Some (3, [(1, 1)]), 0) \<and>
   0 < length [sampleSubmitted] \<and>
   clientID ([sampleSubmitted] ! 0) = acceptedClientID (sampleAccepted ! 1) \<and>
   fst (rebaseLoop insHost [sampleSubmitted] [sampleAccepted ! 0, sampleAccepted ! 1])
     \<noteq> Some (mapDesc insHost (3, [(1, 1)]) (acceptedChanges (sampleAccepted ! 1)) True)"
  by (simp add: rebaseLoop_def rebaseStep.simps sample_defs ins_defs)

section \<open>Rebasing what remains\<close>

text \<open>
  C4, as the code has it. In \<^verbatim>\<open>receiveUpdates\<close>, when the loop ends with foreign
  changes \<open>F\<close>, and in \<^verbatim>\<open>rebaseUpdates\<close>, when the loop ends with a script \<open>C\<close>,
  the \<open>i\<close>-th remaining update \<open>v\<close> gets the changes \<^verbatim>\<open>v.changes.map(F')\<close>, with
  the default \<^verbatim>\<open>before = false\<close>, where \<open>F'\<close> is the running script after the
  \<open>i\<close> updates in front of \<open>v\<close>; then \<open>F'\<close> becomes \<^verbatim>\<open>F'.map(v.changes, true)\<close>;
  and \<open>v\<close>'s effects are mapped over that new value of \<open>F'\<close>, the one the next
  update is rebased over, not over the script \<open>v\<close>'s changes were mapped over.
  The order of the updates is kept.
\<close>

theorem remaining_updates_rebased:
  "(receiveLoop h (unconfirmed (collabField state)) updates = (own, E, Some F) \<longrightarrow>
    (let vs = drop own (unconfirmed (collabField state)) in
     unconfirmed (collabField (receivedState h state updates)) =
     map (\<lambda>i. LocalUpdate (origin (vs ! i))
                (mapSet h (localChanges (vs ! i)) (desc h (localRunning h F vs i)) False)
                (mapEffects h (localEffects (vs ! i)) (desc h (localRunning h F vs (Suc i))))
                (configClientID (collabConfig state)))
         [0..<length vs])) \<and>
   (rebaseLoop h submitted over = (Some C, skip) \<longrightarrow>
    (let us = drop skip submitted in
     rebaseUpdates h submitted over =
     map (\<lambda>i. \<lparr>changes = mapSet h (changes (us ! i)) (remainingRunning h C us i) False,
                effects = map_option (\<lambda>es. mapEffects h es (remainingRunning h C us (Suc i)))
                            (effects (us ! i)),
                clientID = clientID (us ! i)\<rparr>)
         [0..<length us]))"
proof (intro conjI impI)
  assume l: "receiveLoop h (unconfirmed (collabField state)) updates = (own, E, Some F)"
  show "let vs = drop own (unconfirmed (collabField state)) in
     unconfirmed (collabField (receivedState h state updates)) =
     map (\<lambda>i. LocalUpdate (origin (vs ! i))
                (mapSet h (localChanges (vs ! i)) (desc h (localRunning h F vs i)) False)
                (mapEffects h (localEffects (vs ! i)) (desc h (localRunning h F vs (Suc i))))
                (configClientID (collabConfig state)))
         [0..<length vs]"
    unfolding Let_def received_unconfirmed [OF l]
    by (simp only: CollabState.sel option.case rebaseLocal_fst_eq)
next
  assume l: "rebaseLoop h submitted over = (Some C, skip)"
  show "let us = drop skip submitted in
     rebaseUpdates h submitted over =
     map (\<lambda>i. \<lparr>changes = mapSet h (changes (us ! i)) (remainingRunning h C us i) False,
                effects = map_option (\<lambda>es. mapEffects h es (remainingRunning h C us (Suc i)))
                            (effects (us ! i)),
                clientID = clientID (us ! i)\<rparr>)
         [0..<length us]"
    unfolding Let_def rebaseUpdates_eq [OF l]
    by (simp only: option.case rebaseRemaining_fst_eq)
qed

text \<open>Both functions at the sample, where one update remains.\<close>

theorem remaining_updates_rebased_witness:
  "receiveLoop insHost (unconfirmed (collabField sampleState)) [sampleForeign] =
     (0, [1], Some (3, [(1, ''x'')])) \<and>
   unconfirmed (collabField (receivedState insHost sampleState [sampleForeign])) =
     [LocalUpdate sampleTransaction (4, [(0, ''y'')]) [2] ''a''] \<and>
   rebaseLoop insHost [sampleSubmitted] [sampleAccepted ! 0] = (Some (3, [(1, 1)]), 0) \<and>
   rebaseUpdates insHost [sampleSubmitted] [sampleAccepted ! 0] =
     [\<lparr>changes = (4, [(0, ''y'')]), effects = Some [2], clientID = ''a''\<rparr>]"
  using remaining_updates_rebased [of insHost sampleState "[sampleForeign]" 0 "[1]"
      "(3, [(1, ''x'')])" "[sampleSubmitted]" "[sampleAccepted ! 0]" "(3, [(1, 1)])" 0]
    sample_receiveLoop sample_rebaseLoop
  by (simp add: Let_def localRunning_def remainingRunning_def sample_defs ins_defs)

text \<open>
  C4 as it is written maps \<open>v\<close>'s effects over the script its changes were
  mapped over. At the sample that script is \<open>b\<close>'s insertion at position 1,
  which would move \<open>a\<close>'s effect from position 2 to 3; the code maps it over
  the insertion as it reads after \<open>a\<close>'s change, at position 2, and the effect
  stays at 2.
\<close>

theorem effects_over_same_script_counterexample:
  "receiveLoop insHost (unconfirmed (collabField sampleState)) [sampleForeign] =
     (0, [1], Some (changes sampleForeign)) \<and>
   localChanges (hd (unconfirmed (collabField (receivedState insHost sampleState [sampleForeign]))))
     = mapSet insHost (localChanges sampleLocal) (desc insHost (changes sampleForeign)) False \<and>
   localEffects (hd (unconfirmed (collabField (receivedState insHost sampleState [sampleForeign]))))
     \<noteq> mapEffects insHost (localEffects sampleLocal) (desc insHost (changes sampleForeign))"
  using sample_receiveLoop received_unconfirmed [OF sample_receiveLoop]
  by (simp add: sample_defs ins_defs)

section \<open>Empty batches, the version and the transaction\<close>

text \<open>
  C5. \<^verbatim>\<open>receiveUpdates(state, [])\<close> is a transaction with nothing but the
  \<^verbatim>\<open>collabReceive\<close> annotation, and the state it leads to has the version and
  the unconfirmed updates of \<open>state\<close>. \<^verbatim>\<open>rebaseUpdates([], over)\<close> and
  \<^verbatim>\<open>rebaseUpdates(updates, [])\<close> return their first argument.
\<close>

theorem empty_batches_are_noops:
  "receiveUpdates h state [] =
     \<lparr>specChanges = None, specEffects = None,
      specAnnotations = [CollabReceive (collabField state)], specFilter = None\<rparr> \<and>
   getSyncedVersion (receivedState h state []) = getSyncedVersion state \<and>
   sendableUpdates (receivedState h state []) = sendableUpdates state \<and>
   rebaseUpdates h [] over = [] \<and>
   rebaseUpdates h updates [] = updates"
proof -
  have r: "receiveUpdates h state [] =
     \<lparr>specChanges = None, specEffects = None,
      specAnnotations = [CollabReceive (collabField state)], specFilter = None\<rparr>"
    using receiveUpdates_eq [of h state "[]" 0 "[]" None]
    by (simp add: collabState_collapse)
  have "collabField (receivedState h state []) = collabField state"
    by (simp add: receivedState_def r transactionState_def stateUpdate_def collabFieldUpdate_def)
  then show ?thesis
    using r by (simp add: getSyncedVersion_def sendableUpdates_def rebaseUpdates_def)
qed

text \<open>
  C6. The collab state that \<^verbatim>\<open>receiveUpdates\<close> attaches to its transaction has
  the version of \<open>state\<close> plus the number of updates of the batch, whatever their
  client IDs, and \<^verbatim>\<open>getSyncedVersion\<close> reads that version from the state the
  transaction leads to. The version is a JavaScript number: this is said for a
  version that is a safe integer before the batch and after it, where the
  addition of line 90 is the addition of integers.
\<close>

theorem receiveUpdates_version:
  assumes "isSafeInteger (version (collabField state))"
    and "isSafeInteger (version (collabField state) + int (length updates))"
  shows "map_option version
           (annotationCollabReceive (specAnnotations (receiveUpdates h state updates)))
           = Some (version (collabField state) + int (length updates)) \<and>
         getSyncedVersion (receivedState h state updates)
           = version (collabField state) + int (length updates) \<and>
         getSyncedVersion state = version (collabField state)"
proof -
  obtain own E F where l: "receiveLoop h (unconfirmed (collabField state)) updates = (own, E, F)"
    by (cases "receiveLoop h (unconfirmed (collabField state)) updates") auto
  have "map_option version (annotationCollabReceive (specAnnotations (receiveUpdates h state updates)))
     = Some (version (collabField state) + int (length updates))"
    using receiveUpdates_eq [OF l] by (cases F) (simp_all add: Let_def)
  then show ?thesis
    using received_unconfirmed [OF l] by (simp add: getSyncedVersion_def)
qed

text \<open>
  The sample peer receives \<open>b\<close>'s update and the echo of its own: the version
  goes from 0 to 2. At the upper end of the range, a batch of one update takes
  the version from \<open>2^53 - 2\<close> to \<open>2^53 - 1\<close>.
\<close>

theorem receiveUpdates_version_witness:
  "isSafeInteger (version (collabField sampleState)) \<and>
   isSafeInteger (version (collabField sampleState) + int (length [sampleForeign, sampleEcho])) \<and>
   map_option version (annotationCollabReceive
     (specAnnotations (receiveUpdates insHost sampleState [sampleForeign, sampleEcho]))) = Some 2 \<and>
   getSyncedVersion (receivedState insHost sampleState [sampleForeign, sampleEcho]) = 2 \<and>
   getSyncedVersion sampleState = 0 \<and>
   isSafeInteger (version (collabField
     (sampleState\<lparr>collabField := CollabState (2 ^ 53 - 2) [sampleLocal]\<rparr>))) \<and>
   isSafeInteger (version (collabField
     (sampleState\<lparr>collabField := CollabState (2 ^ 53 - 2) [sampleLocal]\<rparr>))
       + int (length [sampleForeign])) \<and>
   getSyncedVersion (receivedState insHost
     (sampleState\<lparr>collabField := CollabState (2 ^ 53 - 2) [sampleLocal]\<rparr>) [sampleForeign])
     = 2 ^ 53 - 1"
  using receiveUpdates_version
      [where state = sampleState and updates = "[sampleForeign, sampleEcho]" and h = insHost]
    receiveUpdates_version
      [where state = "sampleState\<lparr>collabField := CollabState (2 ^ 53 - 2) [sampleLocal]\<rparr>"
         and updates = "[sampleForeign]" and h = insHost]
  by (simp add: isSafeInteger_def sample_defs)

text \<open>
  C7, as the code has it. The test of line 121 is on \<^verbatim>\<open>changes\<close> being \<^verbatim>\<open>null\<close>,
  which it is exactly when every update of the batch was taken as the echo of
  an unconfirmed one. Then the transaction has no changes, no effects and no
  filter flag, only the \<^verbatim>\<open>collabReceive\<close> annotation with the new collab state.
  Otherwise, also when the updates of the other clients have effects only and
  the foreign changes \<open>F\<close> are a change set without changes, it is one
  transaction with \<^verbatim>\<open>addToHistory\<close> false, \<^verbatim>\<open>remote\<close> true, \<^verbatim>\<open>filter\<close> false
  and the new collab state; its effects are the aggregated effects, mapped over
  the composition of the rebased unconfirmed changes when both are non-empty;
  its changes are \<open>F\<close> after it has been mapped, with \<^verbatim>\<open>before = true\<close>, over
  each remaining unconfirmed update in turn, which is \<open>F\<close> itself when no
  unconfirmed update remains. The new collab state has the unconfirmed updates
  that remain, rebased over \<open>F\<close> when there are foreign changes; the value of
  its version is the subject of C6.
\<close>

theorem receiveUpdates_transaction:
  assumes "receiveLoop h (unconfirmed (collabField state)) updates = (own, E, F)"
  shows "(F = None) = (own = length updates) \<and>
    receiveUpdates h state updates =
    (let vs = drop own (unconfirmed (collabField state));
         received = collabField (receivedState h state updates)
     in case F of
          None \<Rightarrow>
            \<lparr>specChanges = None, specEffects = None,
             specAnnotations = [CollabReceive received], specFilter = None\<rparr>
        | Some f \<Rightarrow>
            \<lparr>specChanges = Some (localRunning h f vs (length vs)),
             specEffects = Some
               (if vs = [] \<or> E = [] then E
                else mapEffects h E
                       (desc h (foldl (\<lambda>ch u. compose h ch (localChanges u))
                          (emptySet h (changeLength h (localChanges (hd (unconfirmed received)))))
                          (unconfirmed received)))),
             specAnnotations = [AddToHistory False, Remote True, CollabReceive received],
             specFilter = Some False\<rparr>) \<and>
    unconfirmed (collabField (receivedState h state updates)) =
      (case F of
         None \<Rightarrow> drop own (unconfirmed (collabField state))
       | Some f \<Rightarrow> fst (rebaseLocal h (configClientID (collabConfig state)) f
                         (drop own (unconfirmed (collabField state))))) \<and>
    (drop own (unconfirmed (collabField state)) = [] \<longrightarrow>
       specChanges (receiveUpdates h state updates) = F)"
proof (intro conjI)
  show "(F = None) = (own = length updates)"
    by (rule receiveLoop_all_echoes [OF assms])
  show "receiveUpdates h state updates =
    (let vs = drop own (unconfirmed (collabField state));
         received = collabField (receivedState h state updates)
     in case F of
          None \<Rightarrow>
            \<lparr>specChanges = None, specEffects = None,
             specAnnotations = [CollabReceive received], specFilter = None\<rparr>
        | Some f \<Rightarrow>
            \<lparr>specChanges = Some (localRunning h f vs (length vs)),
             specEffects = Some
               (if vs = [] \<or> E = [] then E
                else mapEffects h E
                       (desc h (foldl (\<lambda>ch u. compose h ch (localChanges u))
                          (emptySet h (changeLength h (localChanges (hd (unconfirmed received)))))
                          (unconfirmed received)))),
             specAnnotations = [AddToHistory False, Remote True, CollabReceive received],
             specFilter = Some False\<rparr>)"
    using receiveUpdates_eq [OF assms] received_unconfirmed [OF assms]
    by (cases F) (auto simp: Let_def rebaseLocal_snd)
  show "unconfirmed (collabField (receivedState h state updates)) =
      (case F of
         None \<Rightarrow> drop own (unconfirmed (collabField state))
       | Some f \<Rightarrow> fst (rebaseLocal h (configClientID (collabConfig state)) f
                         (drop own (unconfirmed (collabField state)))))"
    using received_unconfirmed [OF assms] by simp
  show "drop own (unconfirmed (collabField state)) = [] \<longrightarrow>
       specChanges (receiveUpdates h state updates) = F"
    using receiveUpdates_eq [OF assms] by (cases F) (simp_all add: Let_def)
qed

text \<open>
  The transaction at the sample, for four batches: the update of \<open>b\<close>, over
  which the unconfirmed update of \<open>a\<close> is rebased; the echo of \<open>a\<close>'s own update,
  where nothing but the annotation is left; the update of \<open>b\<close> that has an
  effect only; and the update of \<open>a\<close> followed by the one of \<open>b\<close>, where no
  unconfirmed update remains and the transaction carries \<open>F\<close> as the loop
  leaves it.
\<close>

theorem receiveUpdates_transaction_witness:
  "receiveLoop insHost (unconfirmed (collabField sampleState)) [sampleForeign] =
     (0, [1], Some (3, [(1, ''x'')])) \<and>
   receiveUpdates insHost sampleState [sampleForeign] =
     \<lparr>specChanges = Some (4, [(2, ''x'')]), specEffects = Some [2],
      specAnnotations = [AddToHistory False, Remote True,
        CollabReceive (CollabState 1 [LocalUpdate sampleTransaction (4, [(0, ''y'')]) [2] ''a''])],
      specFilter = Some False\<rparr> \<and>
   receiveLoop insHost (unconfirmed (collabField sampleState)) [sampleEcho] = (1, [], None) \<and>
   receiveUpdates insHost sampleState [sampleEcho] =
     \<lparr>specChanges = None, specEffects = None,
      specAnnotations = [CollabReceive (CollabState 1 [])], specFilter = None\<rparr> \<and>
   receiveLoop insHost (unconfirmed (collabField sampleState)) [sampleEffectOnly] =
     (0, [1], Some (3, [])) \<and>
   receiveUpdates insHost sampleState [sampleEffectOnly] =
     \<lparr>specChanges = Some (4, []), specEffects = Some [2],
      specAnnotations = [AddToHistory False, Remote True,
        CollabReceive (CollabState 1 [LocalUpdate sampleTransaction (3, [(0, ''y'')]) [2] ''a''])],
      specFilter = Some False\<rparr> \<and>
   receiveLoop insHost (unconfirmed (collabField sampleState)) [sampleSubmitted, sampleRebased] =
     (1, [2], Some (4, [(2, ''x'')])) \<and>
   drop 1 (unconfirmed (collabField sampleState)) = [] \<and>
   receiveUpdates insHost sampleState [sampleSubmitted, sampleRebased] =
     \<lparr>specChanges = Some (4, [(2, ''x'')]), specEffects = Some [2],
      specAnnotations = [AddToHistory False, Remote True, CollabReceive (CollabState 2 [])],
      specFilter = Some False\<rparr>"
proof -
  from receiveUpdates_transaction [OF sample_receiveLoop]
    received_unconfirmed [OF sample_receiveLoop]
  have a: "receiveUpdates insHost sampleState [sampleForeign] =
     \<lparr>specChanges = Some (4, [(2, ''x'')]), specEffects = Some [2],
      specAnnotations = [AddToHistory False, Remote True,
        CollabReceive (CollabState 1 [LocalUpdate sampleTransaction (4, [(0, ''y'')]) [2] ''a''])],
      specFilter = Some False\<rparr>"
    by (simp add: Let_def localRunning_def sample_defs ins_defs)
  from receiveUpdates_transaction [OF sample_receiveLoop_echo]
    received_unconfirmed [OF sample_receiveLoop_echo]
  have b: "receiveUpdates insHost sampleState [sampleEcho] =
     \<lparr>specChanges = None, specEffects = None,
      specAnnotations = [CollabReceive (CollabState 1 [])], specFilter = None\<rparr>"
    by (simp add: Let_def sample_defs)
  from receiveUpdates_transaction [OF sample_receiveLoop_effectOnly]
    received_unconfirmed [OF sample_receiveLoop_effectOnly]
  have c: "receiveUpdates insHost sampleState [sampleEffectOnly] =
     \<lparr>specChanges = Some (4, []), specEffects = Some [2],
      specAnnotations = [AddToHistory False, Remote True,
        CollabReceive (CollabState 1 [LocalUpdate sampleTransaction (3, [(0, ''y'')]) [2] ''a''])],
      specFilter = Some False\<rparr>"
    by (simp add: Let_def localRunning_def sample_defs ins_defs)
  have e: "drop 1 (unconfirmed (collabField sampleState)) = []"
    by (simp add: sample_defs)
  from receiveUpdates_transaction [OF sample_receiveLoop_rebased]
    received_unconfirmed [OF sample_receiveLoop_rebased]
  have d: "receiveUpdates insHost sampleState [sampleSubmitted, sampleRebased] =
     \<lparr>specChanges = Some (4, [(2, ''x'')]), specEffects = Some [2],
      specAnnotations = [AddToHistory False, Remote True, CollabReceive (CollabState 2 [])],
      specFilter = Some False\<rparr>"
    by (simp add: Let_def localRunning_def sample_defs)
  from a b c d e sample_receiveLoop sample_receiveLoop_echo sample_receiveLoop_effectOnly
    sample_receiveLoop_rebased
  show ?thesis by simp
qed

text \<open>
  C7 as it is written has the transaction carry \<open>F\<close>, the foreign changes as
  the loop leaves them, and has a transaction without changes and without
  effects when \<open>F\<close> is empty. At the sample the loop leaves the insertion of
  \<open>x\<close> at position 1 of \<open>abc\<close>, and the transaction carries the insertion of
  \<open>x\<close> at position 2 of \<open>yabc\<close>. And for the update of \<open>b\<close> that has an effect
  only, the loop leaves a change set without changes, and the transaction is
  the tagged one all the same: it has changes (that empty change set, mapped),
  the effect and the filter flag.
\<close>

theorem mutation_carries_aggregate_counterexample:
  "snd (snd (receiveLoop insHost (unconfirmed (collabField sampleState)) [sampleForeign])) =
     Some (3, [(1, ''x'')]) \<and>
   specChanges (receiveUpdates insHost sampleState [sampleForeign]) \<noteq> Some (3, [(1, ''x'')]) \<and>
   snd (snd (receiveLoop insHost (unconfirmed (collabField sampleState)) [sampleEffectOnly])) =
     Some (3, []) \<and>
   isEmpty insHost (3, []) \<and>
   specChanges (receiveUpdates insHost sampleState [sampleEffectOnly]) = Some (4, []) \<and>
   specEffects (receiveUpdates insHost sampleState [sampleEffectOnly]) = Some [2] \<and>
   specFilter (receiveUpdates insHost sampleState [sampleEffectOnly]) = Some False"
  using receiveUpdates_eq [OF sample_receiveLoop] sample_receiveLoop
    receiveUpdates_eq [OF sample_receiveLoop_effectOnly] sample_receiveLoop_effectOnly
  by (simp add: sample_defs ins_defs)

section \<open>Capturing local edits\<close>

text \<open>
  C8. For a transaction that is not the result of \<^verbatim>\<open>receiveUpdates\<close> (it has no
  \<^verbatim>\<open>collabReceive\<close> annotation): when its changes are empty and it has no
  shared effects, the field's value stays as it is; otherwise one local update
  with the transaction's changes and shared effects is added at the end of the
  unconfirmed updates, and the version stays.
\<close>

theorem local_edit_capture:
  assumes "annotationCollabReceive (tr_annotations tr) = None"
  shows "collabFieldUpdate h cfg collab tr =
         (if sharedEffects cfg tr = [] \<and> isEmpty h (tr_changes tr) then collab
          else CollabState (version collab)
                 (unconfirmed collab @
                  [LocalUpdate tr (tr_changes tr) (sharedEffects cfg tr) (configClientID cfg)]))"
  using assms by (simp add: collabFieldUpdate_def Let_def)

text \<open>A typed character is captured, a transaction with no changes is not.\<close>

theorem local_edit_capture_witness:
  "annotationCollabReceive (tr_annotations sampleTransaction) = None \<and>
   collabFieldUpdate insHost sampleConfig (CollabState 0 []) sampleTransaction =
     CollabState 0 [sampleLocal] \<and>
   collabFieldUpdate insHost sampleConfig (CollabState 0 [sampleLocal])
       (Transaction (4, []) [] [AddToHistory True]) = CollabState 0 [sampleLocal]"
  using local_edit_capture [of sampleTransaction insHost sampleConfig "CollabState 0 []"]
    local_edit_capture [of "Transaction (4, []) [] [AddToHistory True]" insHost sampleConfig
      "CollabState 0 [sampleLocal]"]
  by (simp add: sample_defs ins_defs)

section \<open>Order of the updates\<close>

text \<open>
  C9. The unconfirmed updates after \<^verbatim>\<open>receiveUpdates\<close> are, one by one and in
  the same order, the updates of the old queue without its first \<open>own\<close> ones:
  each has the origin of the old update at its place and is that update or that
  update with its changes and effects mapped. In the same way the result of
  \<^verbatim>\<open>rebaseUpdates\<close> is \<^verbatim>\<open>updates\<close> without its first \<open>skip\<close> ones, each kept or
  mapped, with its client ID.
\<close>

theorem fifo_suffix_preserved:
  "list_all2
     (\<lambda>old new. origin new = origin old \<and>
        (new = old \<or>
         (\<exists>c c'. new = LocalUpdate (origin old)
                          (mapSet h (localChanges old) (desc h c) False)
                          (mapEffects h (localEffects old) (desc h c'))
                          (configClientID (collabConfig state)))))
     (drop (fst (receiveLoop h (unconfirmed (collabField state)) updates))
        (unconfirmed (collabField state)))
     (unconfirmed (collabField (receivedState h state updates))) \<and>
   list_all2
     (\<lambda>old new. clientID new = clientID old \<and>
        (new = old \<or>
         (\<exists>d d'. new = \<lparr>changes = mapSet h (changes old) d False,
                         effects = map_option (\<lambda>es. mapEffects h es d') (effects old),
                         clientID = clientID old\<rparr>)))
     (drop (snd (rebaseLoop h submitted over)) submitted)
     (rebaseUpdates h submitted over)"
proof
  obtain own E F where l: "receiveLoop h (unconfirmed (collabField state)) updates = (own, E, F)"
    by (cases "receiveLoop h (unconfirmed (collabField state)) updates") auto
  show "list_all2
     (\<lambda>old new. origin new = origin old \<and>
        (new = old \<or>
         (\<exists>c c'. new = LocalUpdate (origin old)
                          (mapSet h (localChanges old) (desc h c) False)
                          (mapEffects h (localEffects old) (desc h c'))
                          (configClientID (collabConfig state)))))
     (drop (fst (receiveLoop h (unconfirmed (collabField state)) updates))
        (unconfirmed (collabField state)))
     (unconfirmed (collabField (receivedState h state updates)))"
  proof (cases F)
    case None
    with received_unconfirmed [OF l] l show ?thesis
      by (simp add: list_all2_conv_all_nth)
  next
    case (Some f)
    with received_unconfirmed [OF l] l show ?thesis
      by (auto simp: list_all2_conv_all_nth rebaseLocal_length rebaseLocal_nth)
  qed
next
  obtain C skip where l: "rebaseLoop h submitted over = (C, skip)"
    by (cases "rebaseLoop h submitted over") auto
  show "list_all2
     (\<lambda>old new. clientID new = clientID old \<and>
        (new = old \<or>
         (\<exists>d d'. new = \<lparr>changes = mapSet h (changes old) d False,
                         effects = map_option (\<lambda>es. mapEffects h es d') (effects old),
                         clientID = clientID old\<rparr>)))
     (drop (snd (rebaseLoop h submitted over)) submitted)
     (rebaseUpdates h submitted over)"
  proof (cases C)
    case None
    with rebaseUpdates_eq [OF l] l show ?thesis
      by (simp add: list_all2_conv_all_nth)
  next
    case (Some d)
    with rebaseUpdates_eq [OF l] l show ?thesis
      by (auto simp: list_all2_conv_all_nth rebaseRemaining_length rebaseRemaining_nth)
  qed
qed

section \<open>No effects without foreign changes\<close>

text \<open>
  C10. When the loop of \<^verbatim>\<open>receiveUpdates\<close> ends with \<^verbatim>\<open>changes\<close> still \<^verbatim>\<open>null\<close>,
  every update of the batch was taken as an echo of an unconfirmed one, the
  list of effects is empty, and the transaction is the one with the annotation
  only: no effect is lost there.
\<close>

theorem no_foreign_changes_no_effects:
  assumes "snd (snd (receiveLoop h (unconfirmed (collabField state)) updates)) = None"
  shows "fst (snd (receiveLoop h (unconfirmed (collabField state)) updates)) = [] \<and>
         fst (receiveLoop h (unconfirmed (collabField state)) updates) = length updates \<and>
         receiveUpdates h state updates =
           \<lparr>specChanges = None, specEffects = None,
            specAnnotations = [CollabReceive (collabField (receivedState h state updates))],
            specFilter = None\<rparr>"
proof -
  obtain own E F where l: "receiveLoop h (unconfirmed (collabField state)) updates = (own, E, F)"
    by (cases "receiveLoop h (unconfirmed (collabField state)) updates") auto
  with assms have F: "F = None" by simp
  from receiveLoop_no_foreign_no_effects [OF l [unfolded F]] l
    receiveUpdates_eq [OF l] received_unconfirmed [OF l] F
  show ?thesis by (simp add: Let_def)
qed

text \<open>The sample peer receives the echo of its own update.\<close>

theorem no_foreign_changes_no_effects_witness:
  "snd (snd (receiveLoop insHost (unconfirmed (collabField sampleState)) [sampleEcho])) = None \<and>
   receiveLoop insHost (unconfirmed (collabField sampleState)) [sampleEcho] = (1, [], None) \<and>
   receiveUpdates insHost sampleState [sampleEcho] =
     \<lparr>specChanges = None, specEffects = None,
      specAnnotations = [CollabReceive (CollabState 1 [])], specFilter = None\<rparr>"
proof -
  have l: "receiveLoop insHost (unconfirmed (collabField sampleState)) [sampleEcho] = (1, [], None)"
    by (simp add: receiveLoop_def receiveStep.simps sample_defs ins_defs)
  then have n: "snd (snd (receiveLoop insHost (unconfirmed (collabField sampleState)) [sampleEcho])) = None"
    by simp
  from no_foreign_changes_no_effects [OF n] l received_unconfirmed [OF l]
  show ?thesis by (simp add: sample_defs)
qed

section \<open>Convergence\<close>



end
